theory Spec2Isabelle
  imports Main "HOL-Library.Word"
begin

unbundle bit_operations_syntax

section \<open>JavaScript values used by the services\<close>

text \<open>
  Errors thrown by the code are values: \<open>Error msg\<close> for \<open>new Error(msg)\<close>,
  \<open>SyntaxError\<close> and \<open>TypeError\<close> for the run-time's own exceptions. An operation that can
  throw returns \<open>error + 'a\<close>, with \<open>Inl\<close> the thrown error.
\<close>

datatype error = Error string | SyntaxError string | TypeError string

type_synonym byte = "8 word"

text \<open>
  \<open>vaaBytes[i]\<close> on a \<open>Uint8Array\<close>: the element, or \<open>undefined\<close> (here \<open>None\<close>) when
  \<open>i\<close> is not below the length.
\<close>

definition at :: "byte list \<Rightarrow> nat \<Rightarrow> byte option" where
  "at bs i = (if i < length bs then Some (bs ! i) else None)"

text \<open>
  \<open>ToInt32\<close>, applied by \<open><<\<close> and \<open>|\<close> to their operands: \<open>undefined\<close> becomes \<open>NaN\<close> and
  then \<open>0\<close>; a byte keeps its value.
\<close>

definition toInt32 :: "byte option \<Rightarrow> 32 word" where
  "toInt32 v = (case v of None \<Rightarrow> 0 | Some b \<Rightarrow> ucast b)"

text \<open>\<open>v << n\<close>: a shift of the 32-bit value; the result is a signed 32-bit integer.\<close>

definition shl :: "byte option \<Rightarrow> nat \<Rightarrow> 32 word" where
  "shl v n = push_bit n (toInt32 v)"

text \<open>
  \<open>vaaBytes.slice(start, end)\<close> with \<open>0 \<le> start \<le> end\<close>: both bounds are clamped to the
  length, so a slice that reaches past the buffer is shorter than asked, or empty.
\<close>

definition slice :: "byte list \<Rightarrow> nat \<Rightarrow> nat \<Rightarrow> byte list" where
  "slice bs s e = take (e - s) (drop s bs)"

text \<open>
  \<open>(b[i] << 24) | (b[i+1] << 16) | (b[i+2] << 8) | b[i+3]\<close>: the bitwise operators work on
  signed 32-bit integers, and the JavaScript number that results is the signed reading.
\<close>

definition int32BE :: "byte list \<Rightarrow> nat \<Rightarrow> int" where
  "int32BE bs i =
     sint (shl (at bs i) 24 OR shl (at bs (i + 1)) 16 OR shl (at bs (i + 2)) 8
           OR toInt32 (at bs (i + 3)))"

text \<open>\<open>(b[i] << 8) | b[i+1]\<close>.\<close>

definition int16BE :: "byte list \<Rightarrow> nat \<Rightarrow> int" where
  "int16BE bs i = sint (shl (at bs i) 8 OR toInt32 (at bs (i + 1)))"

text \<open>Lower-case hexadecimal, two digits a byte, as \<open>Buffer.toString('hex')\<close> prints.\<close>

definition hexDigit :: "nat \<Rightarrow> char" where
  "hexDigit n = ''0123456789abcdef'' ! (n mod 16)"

definition hexByte :: "byte \<Rightarrow> string" where
  "hexByte b = [hexDigit (unat b div 16), hexDigit (unat b mod 16)]"

definition toHex :: "byte list \<Rightarrow> string" where
  "toHex bs = concat (map hexByte bs)"

text \<open>\<open>ethers.hexlify\<close> of a byte array: \<open>0x\<close> and the hexadecimal digits.\<close>

definition hexlify :: "byte list \<Rightarrow> string" where
  "hexlify bs = ''0x'' @ toHex bs"

text \<open>The value of a string of big-endian bytes.\<close>

definition beNat :: "byte list \<Rightarrow> nat" where
  "beNat bs = foldl (\<lambda>acc b. acc * 256 + unat b) 0 bs"

text \<open>
  \<open>BigInt('0x' + Buffer.from(bytes).toString('hex'))\<close>: the big-endian value of the bytes.
  With no byte the string is \<open>0x\<close>, which \<open>BigInt\<close> refuses with a \<open>SyntaxError\<close>.
\<close>

definition bigIntOfHex :: "byte list \<Rightarrow> error + nat" where
  "bigIntOfHex bs =
     (if bs = [] then Inl (SyntaxError ''Cannot convert 0x to a BigInt'')
      else Inr (beNat bs))"

section \<open>The message codec: \<open>parseVAA\<close>\<close>

record SignatureSet =
  guardianIndex :: "byte option"
  signature :: "byte list"

text \<open>
  The record \<open>parseVAA\<close> returns. \<open>version\<close>, \<open>consistencyLevel\<close> and each
  \<open>guardianIndex\<close> are plain element reads, \<open>undefined\<close> past the end of the buffer; the
  fields built with \<open><<\<close> and \<open>|\<close> are always numbers.
\<close>

record VAA =
  version :: "byte option"
  guardianSetIndex :: int
  signatures :: "SignatureSet list"
  timestamp :: int
  nonce :: int
  emitterChain :: int
  emitterAddress :: string
  sequence :: nat
  consistencyLevel :: "byte option"
  payload :: "byte list"

text \<open>
  The signature loop \<open>for (let i = 0; i < sigLength; i++)\<close>, by the number of rounds left:
  each round reads one byte and a slice of 65, and moves \<open>index\<close> by 66. It returns the
  signatures and the index after the loop.
\<close>

fun readSignatures :: "byte list \<Rightarrow> nat \<Rightarrow> nat \<Rightarrow> SignatureSet list \<times> nat" where
  "readSignatures bs index 0 = ([], index)"
| "readSignatures bs index (Suc n) =
     (let gi = at bs index;
          sg = slice bs (index + 1) (index + 1 + 65);
          (rest, index') = readSignatures bs (index + 1 + 65) n
      in (\<lparr>guardianIndex = gi, signature = sg\<rparr> # rest, index'))"

text \<open>
  \<open>sigLength\<close> is the element at offset 5; when it is \<open>undefined\<close> the test
  \<open>i < sigLength\<close> is false at once and the loop does not run.
\<close>

definition sigLength :: "byte list \<Rightarrow> nat" where
  "sigLength bs = (case at bs 5 of None \<Rightarrow> 0 | Some n \<Rightarrow> unat n)"

definition parseVAA :: "byte list \<Rightarrow> error + VAA" where
  "parseVAA vaaBytes =
     (let v = at vaaBytes 0;
          gsi = int32BE vaaBytes 1;
          (sigs, index) = readSignatures vaaBytes 6 (sigLength vaaBytes);
          ts = int32BE vaaBytes index;
          nc = int32BE vaaBytes (index + 4);
          chain = int16BE vaaBytes (index + 8);
          addr = hexlify (slice vaaBytes (index + 10) (index + 10 + 32))
      in case bigIntOfHex (slice vaaBytes (index + 42) (index + 42 + 8)) of
           Inl e \<Rightarrow> Inl e
         | Inr sq \<Rightarrow>
             Inr \<lparr>version = v, guardianSetIndex = gsi, signatures = sigs,
                  timestamp = ts, nonce = nc, emitterChain = chain,
                  emitterAddress = addr, sequence = sq,
                  consistencyLevel = at vaaBytes (index + 50),
                  payload = drop (index + 51) vaaBytes\<rparr>)"

subsection \<open>The encoder\<close>

text \<open>
  Modelled from the spec: \<open>encode(Attestation) -> bytes\<close>, which the repository does not
  contain (it only decodes). The layout is the one of the data model: \<open>version\<close> (1 byte),
  \<open>guardianSetIndex\<close> (32 bit), the number of signatures (1 byte), each signature as
  \<open>guardianIndex\<close> (1 byte) and 65 bytes, \<open>timestamp\<close> (32 bit), \<open>nonce\<close> (32 bit),
  \<open>emitterChain\<close> (16 bit), \<open>emitterAddress\<close> (32 bytes), \<open>sequence\<close> (64 bit),
  \<open>consistencyLevel\<close> (1 byte) and the payload; multi-byte integers are big-endian.
\<close>

definition be16 :: "int \<Rightarrow> byte list" where
  "be16 n = [word_of_int (n div 2 ^ 8), word_of_int n]"

definition be32 :: "int \<Rightarrow> byte list" where
  "be32 n = [word_of_int (n div 2 ^ 24), word_of_int (n div 2 ^ 16),
             word_of_int (n div 2 ^ 8), word_of_int n]"

definition be64 :: "nat \<Rightarrow> byte list" where
  "be64 n = map (\<lambda>k. word_of_nat (n div 256 ^ k)) [7, 6, 5, 4, 3, 2, 1, 0]"

definition hexVal :: "char \<Rightarrow> nat" where
  "hexVal c = (if of_char c < (58::nat) then of_char c - 48 else of_char c - 87)"

fun fromHex :: "string \<Rightarrow> byte list" where
  "fromHex (a # b # cs) = word_of_nat (hexVal a * 16 + hexVal b) # fromHex cs"
| "fromHex _ = []"

definition unhexlify :: "string \<Rightarrow> byte list" where
  "unhexlify s = fromHex (drop 2 s)"

definition optByte :: "byte option \<Rightarrow> byte list" where
  "optByte v = (case v of None \<Rightarrow> [] | Some b \<Rightarrow> [b])"

definition encodeSignature :: "SignatureSet \<Rightarrow> byte list" where
  "encodeSignature s = optByte (guardianIndex s) @ signature s"

text \<open>
  Modelled from the spec: \<open>encode\<close>, the fields in the order of the data model, each in
  the width given there. A field that is \<open>undefined\<close> contributes no byte.
\<close>

definition encodeVAA :: "VAA \<Rightarrow> byte list" where
  "encodeVAA a =
     optByte (version a) @ be32 (guardianSetIndex a)
     @ [word_of_nat (length (signatures a))]
     @ concat (map encodeSignature (signatures a))
     @ be32 (timestamp a) @ be32 (nonce a) @ be16 (emitterChain a)
     @ unhexlify (emitterAddress a) @ be64 (sequence a)
     @ optByte (consistencyLevel a) @ payload a"

text \<open>
  A well-formed attestation: every field present and within the width of the data model,
  at most 255 signatures of 65 bytes each, and an emitter address of 32 bytes in the
  form \<open>parseVAA\<close> gives it.
\<close>

definition wellFormedSignature :: "SignatureSet \<Rightarrow> bool" where
  "wellFormedSignature s \<longleftrightarrow> guardianIndex s \<noteq> None \<and> length (signature s) = 65"

definition wellFormed :: "VAA \<Rightarrow> bool" where
  "wellFormed a \<longleftrightarrow>
     version a \<noteq> None \<and> consistencyLevel a \<noteq> None \<and>
     0 \<le> guardianSetIndex a \<and> guardianSetIndex a < 2 ^ 32 \<and>
     0 \<le> timestamp a \<and> timestamp a < 2 ^ 32 \<and>
     0 \<le> nonce a \<and> nonce a < 2 ^ 32 \<and>
     0 \<le> emitterChain a \<and> emitterChain a < 2 ^ 16 \<and>
     sequence a < 2 ^ 64 \<and>
     length (signatures a) \<le> 255 \<and> list_all wellFormedSignature (signatures a) \<and>
     length (unhexlify (emitterAddress a)) = 32 \<and>
     emitterAddress a = hexlify (unhexlify (emitterAddress a))"

text \<open>
  The size a buffer must have for every fixed field to be present, given the signature
  count it declares: \<open>1 + 4 + 1 + 66 * sigCount + 4 + 4 + 2 + 32 + 8 + 1\<close>.
\<close>

definition impliedSize :: "byte list \<Rightarrow> nat" where
  "impliedSize bs = 1 + 4 + 1 + 66 * sigLength bs + 4 + 4 + 2 + 32 + 8 + 1"

text \<open>The offset of the \<open>sequence\<close> field: everything before its eight bytes.\<close>

definition sequenceOffset :: "byte list \<Rightarrow> nat" where
  "sequenceOffset bs = 1 + 4 + 1 + 66 * sigLength bs + 4 + 4 + 2 + 32"

lemma readSignatures_index: "snd (readSignatures bs i n) = i + 66 * n"
  by (induction n arbitrary: i) (simp_all add: Let_def case_prod_unfold)

lemma readSignatures_length: "length (fst (readSignatures bs i n)) = n"
  by (induction n arbitrary: i) (simp_all add: Let_def case_prod_unfold)

lemma readSignatures_eq:
  "readSignatures bs i n = (fst (readSignatures bs i n), i + 66 * n)"
  by (metis prod.collapse readSignatures_index)

lemma beNat_zeros: "beNat (replicate n 0) = 0"
  by (induction n) (simp_all add: beNat_def)

subsection \<open>What the bitwise reads compute\<close>

lemma push_or_add:
  fixes x y :: int
  assumes "0 \<le> y" "y < 2 ^ n"
  shows "push_bit n x OR y = x * 2 ^ n + y"
proof -
  have y: "take_bit n y = y" using assms by (simp add: take_bit_int_eq_self)
  have "push_bit n x + y = push_bit n x OR y"
  proof (rule disjunctive_add)
    fix m
    have "bit y m \<Longrightarrow> m < n"
      by (metis y bit_take_bit_iff)
    then show "\<not> bit (push_bit n x) m \<or> \<not> bit y m"
      by (auto simp: bit_push_bit_iff)
  qed
  then show ?thesis by (simp add: push_bit_eq_mult)
qed

lemma uint_byte_bounds: "0 \<le> uint (b :: byte) \<and> uint b < 256"
  using uint_bounded [of b] by simp

lemma uint_shl_byte:
  fixes b :: byte
  assumes "n \<le> 24"
  shows "uint (push_bit n (ucast b :: 32 word)) = push_bit n (uint b)"
proof -
  have "uint b * 2 ^ n < 256 * 2 ^ n"
    using uint_byte_bounds [of b] by simp
  also have "(256::int) * 2 ^ n = 2 ^ (8 + n)" by (simp add: power_add)
  also have "\<dots> \<le> (2::int) ^ 32" using assms by (intro power_increasing) simp_all
  finally have "uint b * 2 ^ n < 2 ^ 32" .
  moreover have "0 \<le> uint b * 2 ^ n" by simp
  ultimately have "take_bit 32 (push_bit n (uint b)) = push_bit n (uint b)"
    by (simp add: take_bit_int_eq_self push_bit_eq_mult)
  moreover have "uint (ucast b :: 32 word) = uint b"
    by (simp add: uint_up_ucast is_up)
  ultimately show ?thesis
    by (simp add: unsigned_push_bit_eq)
qed

lemma uint_int32:
  fixes b0 b1 b2 b3 :: byte
  shows "uint (push_bit 24 (ucast b0 :: 32 word) OR push_bit 16 (ucast b1)
               OR push_bit 8 (ucast b2) OR ucast b3)
     = uint b0 * 2 ^ 24 + uint b1 * 2 ^ 16 + uint b2 * 2 ^ 8 + uint b3"
proof -
  have u3: "uint (ucast b3 :: 32 word) = uint b3"
    by (simp add: uint_up_ucast is_up)
  note B1 = uint_byte_bounds [of b1] and B2 = uint_byte_bounds [of b2]
   and B3 = uint_byte_bounds [of b3]
  have s1: "push_bit 8 (uint b2) OR uint b3 = uint b2 * 2 ^ 8 + uint b3"
    using B3 by (intro push_or_add) simp_all
  have s2: "push_bit 16 (uint b1) OR (uint b2 * 2 ^ 8 + uint b3)
      = uint b1 * 2 ^ 16 + (uint b2 * 2 ^ 8 + uint b3)"
    using B2 B3 by (intro push_or_add) simp_all
  have s3: "push_bit 24 (uint b0) OR (uint b1 * 2 ^ 16 + (uint b2 * 2 ^ 8 + uint b3))
      = uint b0 * 2 ^ 24 + (uint b1 * 2 ^ 16 + (uint b2 * 2 ^ 8 + uint b3))"
    using B1 B2 B3 by (intro push_or_add) simp_all
  show ?thesis
    by (simp only: uint_or uint_shl_byte u3 s1 s2 s3 add.assoc order.refl)
qed

lemma sint32_uint:
  fixes w :: "32 word"
  shows "sint w = (if uint w < 2 ^ 31 then uint w else uint w - 2 ^ 32)"
proof -
  have b: "0 \<le> uint w" "uint w < 2 ^ 32" using uint_bounded [of w] by simp_all
  show ?thesis
  proof (cases "uint w < 2 ^ 31")
    case True
    then have "(uint w + 2 ^ 31) mod 2 ^ 32 = uint w + 2 ^ 31"
      using b by (intro mod_pos_pos_trivial) simp_all
    with True show ?thesis
      by (simp add: sint_uint signed_take_bit_eq_take_bit_shift take_bit_eq_mod)
  next
    case False
    have "(uint w + 2 ^ 31) mod 2 ^ 32 = (uint w + 2 ^ 31 - 2 ^ 32) mod 2 ^ 32"
      by (simp only: minus_mod_self2)
    also have "\<dots> = uint w + 2 ^ 31 - 2 ^ 32"
      using b False by (intro mod_pos_pos_trivial) simp_all
    finally show ?thesis using False
      by (simp add: sint_uint signed_take_bit_eq_take_bit_shift take_bit_eq_mod)
  qed
qed

text \<open>
  A 32-bit field whose four bytes are present: the unsigned big-endian value when that is
  below \<open>2^31\<close>, and the value less \<open>2^32\<close> otherwise.
\<close>

lemma int32BE_value:
  assumes "i + 3 < length bs"
  shows "int32BE bs i =
     (let u = uint (bs ! i) * 2 ^ 24 + uint (bs ! (i + 1)) * 2 ^ 16
              + uint (bs ! (i + 2)) * 2 ^ 8 + uint (bs ! (i + 3))
      in if u < 2 ^ 31 then u else u - 2 ^ 32)"
  using assms
  by (simp add: int32BE_def at_def shl_def toInt32_def sint32_uint uint_int32 Let_def)

lemma be32_high:
  fixes a b c d :: int
  assumes "128 \<le> a" "0 \<le> b" "0 \<le> c" "0 \<le> d"
  shows "2 ^ 31 \<le> a * 2 ^ 24 + b * 2 ^ 16 + c * 2 ^ 8 + d"
  using assms by simp

lemma be32_below:
  fixes a b c d :: int
  assumes "a < 256" "b < 256" "c < 256" "d < 256"
  shows "a * 2 ^ 24 + b * 2 ^ 16 + c * 2 ^ 8 + d < 2 ^ 32"
  using assms by simp

text \<open>So a 32-bit field whose first byte is 128 or more is read as a negative number.\<close>

lemma int32BE_negative:
  assumes "i + 3 < length bs" "128 \<le> uint (bs ! i)"
  shows "int32BE bs i < 0"
proof -
  define u where "u = uint (bs ! i) * 2 ^ 24 + uint (bs ! (i + 1)) * 2 ^ 16
              + uint (bs ! (i + 2)) * 2 ^ 8 + uint (bs ! (i + 3))"
  have lo: "2 ^ 31 \<le> u"
    unfolding u_def using assms(2) by (intro be32_high) simp_all
  have hi: "u < 2 ^ 32"
    unfolding u_def by (intro be32_below) (simp_all add: uint_byte_bounds)
  have "int32BE bs i = (if u < 2 ^ 31 then u else u - 2 ^ 32)"
    using int32BE_value [OF assms(1)] by (simp add: u_def Let_def)
  with lo hi show ?thesis by simp
qed

section \<open>Claims about the codec\<close>

text \<open>
  C1, as the specification states it: a buffer shorter than the size its signature count
  implies is refused with a decode error. \<open>parseVAA\<close> checks no length. On the 56 zero
  bytes below (one short of the 57 a message without signatures needs) it returns a
  record whose \<open>consistencyLevel\<close> is \<open>undefined\<close>.
\<close>

theorem parseVAA_truncated_counterexample:
  "length (replicate 56 (0::byte)) < impliedSize (replicate 56 0) \<and>
   parseVAA (replicate 56 0) =
     Inr \<lparr>version = Some 0, guardianSetIndex = 0, signatures = [], timestamp = 0,
          nonce = 0, emitterChain = 0, emitterAddress = hexlify (replicate 32 0),
          sequence = 0, consistencyLevel = None, payload = []\<rparr>"
  by (simp add: parseVAA_def impliedSize_def sigLength_def at_def int32BE_def int16BE_def
      shl_def toInt32_def slice_def bigIntOfHex_def beNat_zeros Let_def)

text \<open>
  C1, amended: \<open>parseVAA\<close> validates no length and has no decode error of its own. On a
  buffer shorter than the implied size it throws the \<open>SyntaxError\<close> of \<open>BigInt\<close> when no
  byte of the \<open>sequence\<close> field is present, and otherwise returns a record whose
  \<open>consistencyLevel\<close> is \<open>undefined\<close> and whose payload is empty.
\<close>

theorem parseVAA_truncated:
  assumes "length bs < impliedSize bs"
  shows "(length bs \<le> sequenceOffset bs \<longrightarrow>
            parseVAA bs = Inl (SyntaxError ''Cannot convert 0x to a BigInt'')) \<and>
         (sequenceOffset bs < length bs \<longrightarrow>
            (\<exists>v. parseVAA bs = Inr v \<and> consistencyLevel v = None \<and> payload v = []))"
  using assms
  apply (subst (1 2) parseVAA_def)
  apply (subst (1 2) readSignatures_eq)
  apply (simp add: Let_def impliedSize_def sequenceOffset_def bigIntOfHex_def slice_def at_def)
  done

theorem parseVAA_truncated_witness:
  "length (replicate 48 (0::byte)) < impliedSize (replicate 48 0) \<and>
   parseVAA (replicate 48 0) = Inl (SyntaxError ''Cannot convert 0x to a BigInt'') \<and>
   length (replicate 56 (0::byte)) < impliedSize (replicate 56 0) \<and>
   (\<exists>v. parseVAA (replicate 56 0) = Inr v \<and> consistencyLevel v = None \<and> payload v = [])"
  using parseVAA_truncated [of "replicate 48 0"] parseVAA_truncated [of "replicate 56 0"]
  by (simp add: impliedSize_def sequenceOffset_def sigLength_def at_def)

text \<open>
  C3: the 32-bit fields are to be read as unsigned values. \<open>parseVAA\<close> builds them with
  \<open><<\<close> and \<open>|\<close>, whose result is a signed 32-bit integer, and does not convert it back
  (no \<open>>>> 0\<close>). On the message below, whose \<open>guardianSetIndex\<close> bytes are \<open>80 00 00 00\<close>
  and whose \<open>nonce\<close> bytes are \<open>ff ff ff ff\<close>, the fields come out as \<open>-2147483648\<close> and
  \<open>-1\<close> where the unsigned values are \<open>2147483648\<close> and \<open>4294967295\<close>.
\<close>

theorem parseVAA_int32_signed:
  "parseVAA ([1, 128, 0, 0, 0, 0] @ [0, 0, 0, 0] @ [255, 255, 255, 255] @ replicate 43 0) =
     Inr \<lparr>version = Some 1, guardianSetIndex = - 2147483648, signatures = [],
          timestamp = 0, nonce = - 1, emitterChain = 0,
          emitterAddress = hexlify (replicate 32 0), sequence = 0,
          consistencyLevel = Some 0, payload = []\<rparr>"
  by (simp add: parseVAA_def sigLength_def at_def int32BE_def int16BE_def
      shl_def toInt32_def slice_def bigIntOfHex_def beNat_zeros Let_def nth_append)

lemma hexVal_hexDigit: "n < 16 \<Longrightarrow> hexVal (hexDigit n) = n"
proof -
  have "\<forall>n \<in> set [0..<16]. hexVal (hexDigit n) = n"
    by (simp add: upt_rec hexVal_def hexDigit_def)
  then show "n < 16 \<Longrightarrow> hexVal (hexDigit n) = n" by simp
qed

lemma fromHex_hexByte: "fromHex (hexByte b @ cs) = b # fromHex cs"
proof -
  have "unat b < 2 ^ LENGTH(8)" by (rule unsigned_less)
  then have "unat b div 16 < 16" by simp
  then show ?thesis
    by (simp add: hexByte_def hexVal_hexDigit)
qed

lemma fromHex_toHex: "fromHex (toHex bs) = bs"
  by (induction bs) (simp_all add: toHex_def fromHex_hexByte)

lemma unhexlify_hexlify: "unhexlify (hexlify bs) = bs"
  by (simp add: unhexlify_def hexlify_def fromHex_toHex)

text \<open>
  C2: \<open>decode(encode(a)) = a\<close> for every well-formed attestation. The attestation below
  is well-formed, with \<open>nonce = 2^32 - 1\<close>; its encoding has the bytes \<open>ff ff ff ff\<close> in
  that field, which \<open>parseVAA\<close> reads as \<open>-1\<close>, so the record that comes back is not the
  one that went in.
\<close>

theorem parseVAA_encodeVAA_differs:
  "wellFormed \<lparr>version = Some 1, guardianSetIndex = 3, signatures = [],
        timestamp = 1700000000, nonce = 4294967295, emitterChain = 2,
        emitterAddress = hexlify (replicate 32 0), sequence = 7,
        consistencyLevel = Some 1, payload = [1, 2]\<rparr> \<and>
   parseVAA (encodeVAA \<lparr>version = Some 1, guardianSetIndex = 3, signatures = [],
        timestamp = 1700000000, nonce = 4294967295, emitterChain = 2,
        emitterAddress = hexlify (replicate 32 0), sequence = 7,
        consistencyLevel = Some 1, payload = [1, 2]\<rparr>) =
     Inr \<lparr>version = Some 1, guardianSetIndex = 3, signatures = [],
          timestamp = 1700000000, nonce = - 1, emitterChain = 2,
          emitterAddress = hexlify (replicate 32 0), sequence = 7,
          consistencyLevel = Some 1, payload = [1, 2]\<rparr> \<and>
   parseVAA (encodeVAA \<lparr>version = Some 1, guardianSetIndex = 3, signatures = [],
        timestamp = 1700000000, nonce = 4294967295, emitterChain = 2,
        emitterAddress = hexlify (replicate 32 0), sequence = 7,
        consistencyLevel = Some 1, payload = [1, 2]\<rparr>) \<noteq>
     Inr \<lparr>version = Some 1, guardianSetIndex = 3, signatures = [],
        timestamp = 1700000000, nonce = 4294967295, emitterChain = 2,
        emitterAddress = hexlify (replicate 32 0), sequence = 7,
        consistencyLevel = Some 1, payload = [1, 2]\<rparr>"
  by (simp add: wellFormed_def encodeVAA_def unhexlify_hexlify optByte_def be32_def
      be16_def be64_def parseVAA_def sigLength_def at_def int32BE_def int16BE_def
      shl_def toInt32_def slice_def bigIntOfHex_def beNat_def Let_def nth_append)

subsection \<open>The round trip where the fields are read as written\<close>

lemma at_shift: "length xs = k \<Longrightarrow> at (xs @ ys) (k + j) = at ys j"
  by (auto simp: at_def nth_append)

lemma int32BE_shift: "length xs = k \<Longrightarrow> int32BE (xs @ ys) (k + j) = int32BE ys j"
  using at_shift [of xs k ys j] at_shift [of xs k ys "j + 1"] at_shift [of xs k ys "j + 2"]
    at_shift [of xs k ys "j + 3"]
  by (simp add: int32BE_def add.assoc)

lemma int16BE_shift: "length xs = k \<Longrightarrow> int16BE (xs @ ys) (k + j) = int16BE ys j"
  using at_shift [of xs k ys j] at_shift [of xs k ys "j + 1"]
  by (simp add: int16BE_def add.assoc)

lemma slice_shift:
  "length xs = k \<Longrightarrow> slice (xs @ ys) (k + i) (k + i + n) = take n (drop i ys)"
  by (auto simp: slice_def)

lemma drop_shift: "length xs = k \<Longrightarrow> drop (k + i) (xs @ ys) = drop i ys"
  by auto

lemma drop_prefix: "length xs = k \<Longrightarrow> drop k (xs @ ys) = ys"
  by auto

lemma at_prefix: "length xs = k \<Longrightarrow> at (xs @ ys) k = at ys 0"
  using at_shift [of xs k ys 0] by simp

lemma uint_byte_of_int: "uint (word_of_int k :: byte) = k mod 256"
  by (simp add: uint_word_of_int take_bit_eq_mod)

lemma be32_digits:
  fixes n :: int
  assumes "0 \<le> n" "n < 2 ^ 32"
  shows "(n div 2 ^ 24 mod 256) * 2 ^ 24 + (n div 2 ^ 16 mod 256) * 2 ^ 16
         + (n div 2 ^ 8 mod 256) * 2 ^ 8 + n mod 256 = n"
proof -
  define a where "a = n div 256"
  define b where "b = a div 256"
  define c where "c = b div 256"
  have d16: "n div 2 ^ 16 = b"
    unfolding b_def a_def by (simp add: zdiv_zmult2_eq [symmetric])
  have d24: "n div 2 ^ 24 = c"
    unfolding c_def b_def a_def by (simp add: zdiv_zmult2_eq [symmetric])
  have d8: "n div 2 ^ 8 = a" unfolding a_def by simp
  have c: "c mod 256 = c"
    using assms d24 by (intro mod_pos_pos_trivial) simp_all
  have 1: "n = a * 256 + n mod 256" unfolding a_def by simp
  have 2: "a = b * 256 + a mod 256" unfolding b_def by simp
  have 3: "b = c * 256 + b mod 256" unfolding c_def by simp
  have "c * 2 ^ 24 + (b mod 256) * 2 ^ 16 + (a mod 256) * 2 ^ 8 + n mod 256
      = ((c * 256 + b mod 256) * 256 + a mod 256) * 256 + n mod 256"
    by (simp add: algebra_simps)
  also have "\<dots> = n" using 1 2 3 by simp
  finally show ?thesis by (simp only: d8 d16 d24 c)
qed

lemma int32BE_be32:
  assumes "0 \<le> n" "n < 2 ^ 31"
  shows "int32BE (be32 n @ rest) 0 = n"
proof -
  let ?bs = "be32 n @ rest"
  have len: "0 + 3 < length ?bs" by (simp add: be32_def)
  have b: "?bs ! 0 = word_of_int (n div 2 ^ 24)" "?bs ! (0 + 1) = word_of_int (n div 2 ^ 16)"
    "?bs ! (0 + 2) = word_of_int (n div 2 ^ 8)" "?bs ! (0 + 3) = word_of_int n"
    by (simp_all add: be32_def)
  define u where "u = (n div 2 ^ 24 mod 256) * 2 ^ 24 + (n div 2 ^ 16 mod 256) * 2 ^ 16
         + (n div 2 ^ 8 mod 256) * 2 ^ 8 + n mod 256"
  have "int32BE ?bs 0 = (if u < 2 ^ 31 then u else u - 2 ^ 32)"
    unfolding int32BE_value [OF len] b uint_byte_of_int u_def Let_def ..
  moreover have "u = n"
    unfolding u_def using assms by (intro be32_digits) simp_all
  ultimately show ?thesis using assms by simp
qed

lemma uint_int16:
  fixes b0 b1 :: byte
  shows "uint (push_bit 8 (ucast b0 :: 32 word) OR ucast b1) = uint b0 * 2 ^ 8 + uint b1"
proof -
  have u1: "uint (ucast b1 :: 32 word) = uint b1"
    by (simp add: uint_up_ucast is_up)
  have "push_bit 8 (uint b0) OR uint b1 = uint b0 * 2 ^ 8 + uint b1"
    using uint_byte_bounds [of b1] by (intro push_or_add) simp_all
  then show ?thesis
    by (simp only: uint_or uint_shl_byte u1)
qed

lemma int16BE_be16:
  assumes "0 \<le> n" "n < 2 ^ 16"
  shows "int16BE (be16 n @ rest) 0 = n"
proof -
  define a where "a = n div 256"
  have a: "a mod 256 = a"
    unfolding a_def using assms by (intro mod_pos_pos_trivial) simp_all
  have n: "a * 256 + n mod 256 = n" unfolding a_def by simp
  have "uint (push_bit 8 (ucast (word_of_int (n div 2 ^ 8) :: byte) :: 32 word)
              OR ucast (word_of_int n :: byte)) = n"
    unfolding uint_int16 uint_byte_of_int using a n by (simp add: a_def)
  then show ?thesis
    using assms
    by (simp add: int16BE_def be16_def at_def shl_def toInt32_def sint32_uint)
qed

lemma unat_byte_of_nat: "unat (word_of_nat k :: byte) = k mod 256"
  by (simp add: unat_of_nat)

lemma beNat_snoc: "beNat (xs @ [b]) = beNat xs * 256 + unat b"
  by (simp add: beNat_def)

lemma beNat_append: "beNat (xs @ ys) = beNat xs * 256 ^ length ys + beNat ys"
proof (induction ys rule: rev_induct)
  case Nil
  show ?case by (simp add: beNat_def)
next
  case (snoc y ys)
  have "beNat (xs @ ys @ [y]) = beNat ((xs @ ys) @ [y])" by simp
  also have "\<dots> = beNat (xs @ ys) * 256 + unat y" by (rule beNat_snoc)
  also have "\<dots> = beNat xs * 256 ^ length (ys @ [y]) + (beNat ys * 256 + unat y)"
    by (simp add: snoc.IH algebra_simps)
  finally show ?case by (simp add: beNat_snoc)
qed

lemma beNat_digits:
  "beNat (map (\<lambda>k. word_of_nat (n div 256 ^ k)) (rev [0..<m])) = n mod 256 ^ m"
proof (induction m)
  case 0
  show ?case by (simp add: beNat_def)
next
  case (Suc m)
  have "beNat (map (\<lambda>k. word_of_nat (n div 256 ^ k) :: byte) (rev [0..<Suc m]))
      = beNat ([word_of_nat (n div 256 ^ m)] @ map (\<lambda>k. word_of_nat (n div 256 ^ k)) (rev [0..<m]))"
    by simp
  also have "\<dots> = (n div 256 ^ m mod 256) * 256 ^ m + n mod 256 ^ m"
    unfolding beNat_append Suc.IH by (simp add: beNat_def unat_byte_of_nat)
  also have "\<dots> = n mod (256 ^ m * 256)"
    using mod_mult2_eq [of n "256 ^ m" 256]
    by (simp only: mult.commute [of "n div 256 ^ m mod 256" "256 ^ m"])
  also have "\<dots> = n mod 256 ^ Suc m"
    by (simp only: power_Suc2)
  finally show ?case .
qed

lemma beNat_be64:
  assumes "n < 2 ^ 64"
  shows "beNat (be64 n) = n"
proof -
  have "[7, 6, 5, 4, 3, 2, 1, 0] = rev [0..<8::nat]"
    by (simp add: upt_rec)
  then have "beNat (be64 n) = n mod 256 ^ 8"
    unfolding be64_def by (simp only: beNat_digits)
  then show ?thesis using assms by simp
qed

lemma readSignatures_encoded:
  assumes "list_all wellFormedSignature sigs"
  shows "readSignatures (pre @ concat (map encodeSignature sigs) @ post) (length pre)
           (length sigs) = (sigs, length pre + 66 * length sigs)"
  using assms
proof (induction sigs arbitrary: pre)
  case Nil
  show ?case by simp
next
  case (Cons s sigs)
  from Cons.prems have wf: "wellFormedSignature s" and rest: "list_all wellFormedSignature sigs"
    by simp_all
  from wf obtain g where g: "guardianIndex s = Some g" and len: "length (signature s) = 65"
    by (auto simp: wellFormedSignature_def)
  let ?bs = "pre @ concat (map encodeSignature (s # sigs)) @ post"
  let ?tail = "concat (map encodeSignature sigs) @ post"
  have enc: "encodeSignature s = g # signature s"
    by (simp add: encodeSignature_def optByte_def g)
  have bs: "?bs = pre @ g # signature s @ ?tail" by (simp add: enc)
  have bs': "?bs = (pre @ encodeSignature s) @ ?tail" by simp
  have gi: "at ?bs (length pre) = Some g"
    unfolding bs by (simp add: at_def nth_append)
  have sg: "slice ?bs (length pre + 1) (length pre + 1 + 65) = signature s"
    unfolding bs by (simp add: slice_def len)
  have idx: "length (pre @ encodeSignature s) = length pre + 1 + 65"
    by (simp add: enc len)
  have "readSignatures ?bs (length (pre @ encodeSignature s)) (length sigs)
      = (sigs, length (pre @ encodeSignature s) + 66 * length sigs)"
    unfolding bs' by (rule Cons.IH [OF rest])
  then have ih: "readSignatures ?bs (length pre + 1 + 65) (length sigs)
      = (sigs, length pre + 1 + 65 + 66 * length sigs)"
    unfolding idx .
  have s: "\<lparr>guardianIndex = Some g, signature = signature s\<rparr> = s"
    using g by (cases s) simp
  have "readSignatures ?bs (length pre) (Suc (length sigs))
      = (s # sigs, length pre + 1 + 65 + 66 * length sigs)"
    by (simp only: readSignatures.simps Let_def gi sg ih prod.case s)
  then show ?case by simp
qed

lemma length_encoded_signatures:
  "list_all wellFormedSignature sigs \<Longrightarrow>
   length (concat (map encodeSignature sigs)) = 66 * length sigs"
  by (induction sigs)
     (auto simp: wellFormedSignature_def encodeSignature_def optByte_def)

lemma length_be32 [simp]: "length (be32 n) = 4" by (simp add: be32_def)
lemma length_be16 [simp]: "length (be16 n) = 2" by (simp add: be16_def)
lemma length_be64 [simp]: "length (be64 n) = 8" by (simp add: be64_def)

text \<open>
  The signed reading is the only thing between \<open>parseVAA\<close> and the round trip: a
  well-formed attestation whose three 32-bit fields are below \<open>2^31\<close> is decoded from
  its encoding as it was.
\<close>

lemma parseVAA_encodeVAA:
  assumes wf: "wellFormed a"
    and small: "guardianSetIndex a < 2 ^ 31" "timestamp a < 2 ^ 31" "nonce a < 2 ^ 31"
  shows "parseVAA (encodeVAA a) = Inr a"
proof -
  from wf obtain v c where v: "version a = Some v" and c: "consistencyLevel a = Some c"
    by (auto simp: wellFormed_def)
  define n where "n = length (signatures a)"
  define S where "S = concat (map encodeSignature (signatures a))"
  define A where "A = unhexlify (emitterAddress a)"
  define H where "H = v # be32 (guardianSetIndex a) @ [word_of_nat n :: byte]"
  define B2 where "B2 = be16 (emitterChain a) @ A @ be64 (sequence a) @ [c] @ payload a"
  define B1 where "B1 = be32 (nonce a) @ B2"
  define B where "B = be32 (timestamp a) @ B1"
  define k where "k = 6 + 66 * n"
  have wfs: "list_all wellFormedSignature (signatures a)" and n255: "n \<le> 255"
    and lenA: "length A = 32" and hexA: "hexlify A = emitterAddress a"
    and nonneg: "0 \<le> guardianSetIndex a" "0 \<le> timestamp a" "0 \<le> nonce a"
      "0 \<le> emitterChain a"
    and ch: "emitterChain a < 2 ^ 16" and sq: "sequence a < 2 ^ 64"
    using wf by (simp_all add: wellFormed_def n_def A_def)
  have lenS: "length S = 66 * n"
    unfolding S_def n_def by (rule length_encoded_signatures [OF wfs])
  have lenH: "length H = 6" by (simp add: H_def)
  have enc: "encodeVAA a = H @ S @ B"
    by (simp add: encodeVAA_def H_def S_def B_def B1_def B2_def A_def n_def v c optByte_def)
  have encK: "encodeVAA a = (H @ S) @ B" by (simp add: enc)
  have lenK: "length (H @ S) = k" by (simp add: lenH lenS k_def)
  have f_version: "at (encodeVAA a) 0 = Some v"
    by (simp add: enc H_def at_def)
  have "int32BE ([v] @ be32 (guardianSetIndex a) @ [word_of_nat n] @ S @ B) (1 + 0)
          = int32BE (be32 (guardianSetIndex a) @ [word_of_nat n] @ S @ B) 0"
    by (rule int32BE_shift) simp
  also have "\<dots> = guardianSetIndex a"
    by (rule int32BE_be32 [OF nonneg(1) small(1)])
  finally have f_gsi: "int32BE (encodeVAA a) 1 = guardianSetIndex a"
    by (simp add: enc H_def)
  have "at (encodeVAA a) 5 = Some (word_of_nat n)"
    by (simp add: enc H_def at_def be32_def)
  moreover have "unat (word_of_nat n :: byte) = n"
    using n255 by (simp add: unat_byte_of_nat)
  ultimately have f_len: "sigLength (encodeVAA a) = n"
    by (simp add: sigLength_def)
  have f_sigs: "readSignatures (encodeVAA a) 6 n = (signatures a, k)"
    using readSignatures_encoded [OF wfs, of H B]
    by (simp add: enc S_def n_def lenH k_def)
  have "int32BE (encodeVAA a) (k + 0) = int32BE B 0"
    unfolding encK by (rule int32BE_shift [OF lenK])
  also have "\<dots> = timestamp a"
    unfolding B_def by (rule int32BE_be32 [OF nonneg(2) small(2)])
  finally have f_ts: "int32BE (encodeVAA a) k = timestamp a" by simp
  have "int32BE (encodeVAA a) (k + 4) = int32BE B 4"
    unfolding encK by (rule int32BE_shift [OF lenK])
  also have "\<dots> = int32BE (be32 (timestamp a) @ B1) (4 + 0)" by (simp add: B_def)
  also have "\<dots> = int32BE B1 0" by (rule int32BE_shift) simp
  also have "\<dots> = nonce a"
    unfolding B1_def by (rule int32BE_be32 [OF nonneg(3) small(3)])
  finally have f_nc: "int32BE (encodeVAA a) (k + 4) = nonce a" .
  have "int16BE (encodeVAA a) (k + 8) = int16BE B 8"
    unfolding encK by (rule int16BE_shift [OF lenK])
  also have "\<dots> = int16BE ((be32 (timestamp a) @ be32 (nonce a)) @ B2) (8 + 0)"
    by (simp add: B_def B1_def)
  also have "\<dots> = int16BE B2 0" by (rule int16BE_shift) simp
  also have "\<dots> = emitterChain a"
    unfolding B2_def by (rule int16BE_be16 [OF nonneg(4) ch])
  finally have f_ch: "int16BE (encodeVAA a) (k + 8) = emitterChain a" .
  have B10: "B = (be32 (timestamp a) @ be32 (nonce a) @ be16 (emitterChain a))
                 @ A @ be64 (sequence a) @ [c] @ payload a"
    by (simp add: B_def B1_def B2_def)
  have B42: "B = (be32 (timestamp a) @ be32 (nonce a) @ be16 (emitterChain a) @ A)
                 @ be64 (sequence a) @ [c] @ payload a"
    by (simp add: B_def B1_def B2_def)
  have B50: "B = (be32 (timestamp a) @ be32 (nonce a) @ be16 (emitterChain a) @ A
                  @ be64 (sequence a)) @ [c] @ payload a"
    by (simp add: B_def B1_def B2_def)
  have "slice (encodeVAA a) (k + 10) (k + 10 + 32) = take 32 (drop 10 B)"
    unfolding encK by (rule slice_shift [OF lenK])
  also have "drop 10 B = A @ be64 (sequence a) @ [c] @ payload a"
    unfolding B10 by (rule drop_prefix) simp
  finally have f_addr: "slice (encodeVAA a) (k + 10) (k + 10 + 32) = A"
    by (simp add: lenA)
  have "slice (encodeVAA a) (k + 42) (k + 42 + 8) = take 8 (drop 42 B)"
    unfolding encK by (rule slice_shift [OF lenK])
  also have "drop 42 B = be64 (sequence a) @ [c] @ payload a"
    unfolding B42 by (rule drop_prefix) (simp add: lenA)
  finally have f_seq: "slice (encodeVAA a) (k + 42) (k + 42 + 8) = be64 (sequence a)"
    by simp
  have "at (encodeVAA a) (k + 50) = at B 50"
    unfolding encK by (rule at_shift [OF lenK])
  also have "\<dots> = at ([c] @ payload a) 0"
    unfolding B50 by (rule at_prefix) (simp add: lenA)
  finally have f_cl: "at (encodeVAA a) (k + 50) = Some c" by (simp add: at_def)
  have "drop (k + 51) (encodeVAA a) = drop 51 B"
    unfolding encK by (rule drop_shift [OF lenK])
  also have "\<dots> = drop (50 + 1) B" by simp
  also have "\<dots> = drop 1 ([c] @ payload a)"
    by (subst B50, rule drop_shift) (simp add: lenA)
  finally have f_payload: "drop (k + 51) (encodeVAA a) = payload a" by simp
  have "be64 (sequence a) \<noteq> []" by (simp add: be64_def)
  then have f_big: "bigIntOfHex (be64 (sequence a)) = Inr (sequence a)"
    using beNat_be64 [OF sq] by (simp add: bigIntOfHex_def)
  have "parseVAA (encodeVAA a) =
      Inr \<lparr>version = Some v, guardianSetIndex = guardianSetIndex a,
          signatures = signatures a, timestamp = timestamp a, nonce = nonce a,
          emitterChain = emitterChain a, emitterAddress = hexlify A,
          sequence = sequence a, consistencyLevel = Some c, payload = payload a\<rparr>"
    by (simp only: parseVAA_def Let_def f_version f_gsi f_len f_sigs prod.case f_ts f_nc f_ch
        f_addr f_seq f_big sum.case f_cl f_payload)
  also have "\<dots> = Inr a"
    using v c hexA by (cases a) simp
  finally show ?thesis .
qed

subsection \<open>Complete buffers\<close>

text \<open>A 16-bit field whose two bytes are present is read as the unsigned value.\<close>

lemma int16BE_value:
  assumes "i + 1 < length bs"
  shows "int16BE bs i = uint (bs ! i) * 2 ^ 8 + uint (bs ! (i + 1))"
proof -
  let ?u = "uint (bs ! i) * 2 ^ 8 + uint (bs ! (i + 1))"
  have "?u < 256 * 2 ^ 8"
    using uint_byte_bounds [of "bs ! i"] uint_byte_bounds [of "bs ! (i + 1)"] by simp
  then have "?u < 2 ^ 31" by simp
  then show ?thesis
    using assms
    by (simp add: int16BE_def at_def shl_def toInt32_def sint32_uint uint_int16)
qed

text \<open>
  What \<open>parseVAA\<close> returns on a buffer that is at least as long as its signature count
  implies: every field is present; the 16-bit field and the 64-bit field are the
  unsigned big-endian values of their bytes; the three 32-bit fields are \<open>int32BE\<close> of
  theirs, the signed reading (lemma \<open>int32BE_value\<close>).
\<close>

lemma parseVAA_fields:
  assumes "impliedSize bs \<le> length bs"
  shows "\<exists>v. parseVAA bs = Inr v \<and>
           version v = Some (bs ! 0) \<and>
           guardianSetIndex v = int32BE bs 1 \<and>
           length (signatures v) = sigLength bs \<and>
           timestamp v = int32BE bs (6 + 66 * sigLength bs) \<and>
           nonce v = int32BE bs (6 + 66 * sigLength bs + 4) \<and>
           emitterChain v = uint (bs ! (6 + 66 * sigLength bs + 8)) * 2 ^ 8
                            + uint (bs ! (6 + 66 * sigLength bs + 9)) \<and>
           sequence v = beNat (take 8 (drop (sequenceOffset bs) bs)) \<and>
           consistencyLevel v = Some (bs ! (6 + 66 * sigLength bs + 50)) \<and>
           payload v = drop (impliedSize bs) bs"
proof -
  let ?k = "6 + 66 * sigLength bs"
  have len: "?k + 51 \<le> length bs" using assms by (simp add: impliedSize_def)
  have ch: "int16BE bs (14 + 66 * sigLength bs)
      = uint (bs ! (14 + 66 * sigLength bs)) * 256 + uint (bs ! (15 + 66 * sigLength bs))"
    using int16BE_value [of "14 + 66 * sigLength bs" bs] len by (simp add: add.assoc)
  have nonempty: "bs \<noteq> []" using len by auto
  have ne: "slice bs (?k + 42) (?k + 42 + 8) \<noteq> []"
    using len by (simp add: slice_def)
  have rs: "readSignatures bs 6 (sigLength bs) = (fst (readSignatures bs 6 (sigLength bs)), ?k)"
    by (rule readSignatures_eq)
  show ?thesis
    using len ne
    apply (subst parseVAA_def)
    apply (subst rs)
    apply (simp add: Let_def bigIntOfHex_def at_def readSignatures_length slice_def
        sequenceOffset_def impliedSize_def add.assoc)
    apply (simp add: ch nonempty)
    done
qed

section \<open>The event bus: \<open>EventEmitter\<close>\<close>

text \<open>
  A computation that can throw, in a state: it returns the value or the error thrown,
  and the state it leaves. \<open>tryCatch\<close> is \<open>try { ... } catch (error) { ... }\<close>; \<open>forOf\<close> is
  \<open>for (const x of xs) { ... }\<close>, which an error thrown by its body leaves at once.
\<close>

type_synonym ('s, 'r) js = "'s \<Rightarrow> (error + 'r) \<times> 's"

definition tryCatch :: "('s, 'r) js \<Rightarrow> (error \<Rightarrow> ('s, 'r) js) \<Rightarrow> ('s, 'r) js" where
  "tryCatch body handler s =
     (case body s of
        (Inl e, s') \<Rightarrow> handler e s'
      | (Inr r, s') \<Rightarrow> (Inr r, s'))"

fun forOf :: "'x list \<Rightarrow> ('x \<Rightarrow> ('s, unit) js) \<Rightarrow> ('s, unit) js" where
  "forOf [] body s = (Inr (), s)"
| "forOf (x # xs) body s =
     (case body x s of
        (Inl e, s') \<Rightarrow> (Inl e, s')
      | (Inr u, s') \<Rightarrow> forOf xs body s')"

text \<open>
  A listener, called with the arguments of the event in a world \<open>'w\<close> (everything a
  handler can change, the emitter itself apart): the error it throws, if any, and the
  world it leaves. A listener is known by its reference, here a number.
\<close>

type_synonym ('a, 'w) listener = "'a \<Rightarrow> 'w \<Rightarrow> error option \<times> 'w"

text \<open>
  \<open>events\<close> is the \<open>Map<string, Set<EventListener>>\<close>: a set iterates in insertion order
  and holds a reference once.
\<close>

record ('a, 'w) EventEmitter =
  events :: "string \<rightharpoonup> (nat \<times> ('a, 'w) listener) list"
  maxListeners :: nat

text \<open>
  The surroundings of a call of \<open>emit\<close>: the world of the handlers, the lines written
  with \<open>console.error\<close>, and a record of the listener calls made (which listener, with
  which arguments), kept to state what \<open>emit\<close> delivers.
\<close>

record ('a, 'w) surroundings =
  world :: 'w
  console :: "string list"
  calls :: "(nat \<times> 'a) list"

definition newEmitter :: "('a, 'w) EventEmitter" where
  "newEmitter = \<lparr>events = Map.empty, maxListeners = 10\<rparr>"

text \<open>\<open>on\<close>, without the warning it prints past \<open>maxListeners\<close>.\<close>

definition on :: "string \<Rightarrow> nat \<times> ('a, 'w) listener \<Rightarrow> ('a, 'w) EventEmitter
    \<Rightarrow> ('a, 'w) EventEmitter" where
  "on event l em =
     (let ls = (case events em event of None \<Rightarrow> [] | Some ls \<Rightarrow> ls)
      in em\<lparr>events := (events em)
              (event \<mapsto> (if fst l \<in> fst ` set ls then ls else ls @ [l]))\<rparr>)"

definition off :: "string \<Rightarrow> nat \<Rightarrow> ('a, 'w) EventEmitter \<Rightarrow> ('a, 'w) EventEmitter" where
  "off event ref em =
     (case events em event of
        None \<Rightarrow> em
      | Some ls \<Rightarrow>
          (let ls' = filter (\<lambda>l. fst l \<noteq> ref) ls
           in em\<lparr>events := (if ls' = [] then (events em)(event := None)
                              else (events em)(event \<mapsto> ls'))\<rparr>))"

text \<open>\<open>listener(...args)\<close>: the call is recorded, the world is the one the listener leaves.\<close>

definition callListener ::
  "nat \<times> ('a, 'w) listener \<Rightarrow> 'a \<Rightarrow> (('a, 'w) surroundings, unit) js" where
  "callListener l args s =
     (case snd l args (world s) of
        (thrown, w') \<Rightarrow>
          ((case thrown of None \<Rightarrow> Inr () | Some e \<Rightarrow> Inl e),
           s\<lparr>world := w', calls := calls s @ [(fst l, args)]\<rparr>))"

definition consoleError :: "string \<Rightarrow> error \<Rightarrow> (('a, 'w) surroundings, unit) js" where
  "consoleError event e s =
     (Inr (), s\<lparr>console := console s @ [''Error in event listener for \"'' @ event @ ''\":'']\<rparr>)"

definition emit ::
  "('a, 'w) EventEmitter \<Rightarrow> string \<Rightarrow> 'a \<Rightarrow> (('a, 'w) surroundings, bool) js" where
  "emit em event args s =
     (case events em event of
        None \<Rightarrow> (Inr False, s)
      | Some listeners \<Rightarrow>
          if length listeners = 0 then (Inr False, s)
          else (case forOf listeners
                       (\<lambda>listener. tryCatch (callListener listener args) (consoleError event)) s of
                  (Inl e, s') \<Rightarrow> (Inl e, s')
                | (Inr u, s') \<Rightarrow> (Inr True, s')))"

text \<open>Listeners for the concrete run below: one counts, one counts and then throws.\<close>

definition counting :: "(string, nat) listener" where
  "counting args w = (None, w + 1)"

definition throwing :: "(string, nat) listener" where
  "throwing args w = (Some (Error ''handler failed''), w + 1)"

lemma guarded_call:
  "tryCatch (callListener l args) (consoleError event) s =
     (Inr (), (case fst (snd l args (world s)) of
                 None \<Rightarrow> s\<lparr>world := snd (snd l args (world s)), calls := calls s @ [(fst l, args)]\<rparr>
               | Some e \<Rightarrow> s\<lparr>world := snd (snd l args (world s)), calls := calls s @ [(fst l, args)],
                       console := console s @ [''Error in event listener for \"'' @ event @ ''\":'']\<rparr>))"
  by (simp add: tryCatch_def callListener_def consoleError_def case_prod_unfold split: option.splits)

lemma forOf_guarded:
  "\<exists>s'. forOf ls (\<lambda>l. tryCatch (callListener l args) (consoleError event)) s = (Inr (), s') \<and>
        calls s' = calls s @ map (\<lambda>l. (fst l, args)) ls \<and>
        world s' = foldl (\<lambda>w l. snd (snd l args w)) (world s) ls"
proof (induction ls arbitrary: s)
  case Nil
  then show ?case by simp
next
  case (Cons l ls)
  obtain s1 where s1: "tryCatch (callListener l args) (consoleError event) s = (Inr (), s1)"
    "calls s1 = calls s @ [(fst l, args)]" "world s1 = snd (snd l args (world s))"
    by (cases "fst (snd l args (world s))") (simp_all add: guarded_call)
  from Cons.IH [of s1] s1 show ?case by auto
qed

text \<open>
  C9: \<open>emit\<close> never throws, whatever the listeners do, and when the topic has listeners
  every one of them is called, once, in subscription order and with the arguments of the
  event, also those subscribed after a listener that throws; each runs in the world the
  one before it left. The result is \<open>true\<close> when there is a listener.
  The handlers act on their world, not on the subscriptions of the emitter they are
  called from.
\<close>

theorem emit_isolates_listeners:
  "(\<forall>e. fst (emit em event args s) \<noteq> Inl e) \<and>
   (\<forall>ls. events em event = Some ls \<longrightarrow>
      fst (emit em event args s) = Inr (ls \<noteq> []) \<and>
      calls (snd (emit em event args s)) = calls s @ map (\<lambda>l. (fst l, args)) ls \<and>
      world (snd (emit em event args s))
        = foldl (\<lambda>w l. snd (snd l args w)) (world s) ls)"
proof (cases "events em event")
  case None
  then show ?thesis by (auto simp: emit_def)
next
  case (Some ls)
  obtain s' where s': "forOf ls (\<lambda>l. tryCatch (callListener l args) (consoleError event)) s = (Inr (), s')"
      "calls s' = calls s @ map (\<lambda>l. (fst l, args)) ls"
      "world s' = foldl (\<lambda>w l. snd (snd l args w)) (world s) ls"
    using forOf_guarded [of ls args event s] by blast
  show ?thesis
  proof (cases "ls = []")
    case True
    with Some show ?thesis by (auto simp: emit_def)
  next
    case False
    with Some s' show ?thesis by (simp add: emit_def)
  qed
qed

theorem emit_isolates_listeners_witness:
  "fst (emit (on ''expired'' (3, counting) (on ''expired'' (2, throwing)
               (on ''expired'' (1, counting) newEmitter)))
          ''expired'' ''order1'' \<lparr>world = 0, console = [], calls = []\<rparr>) = Inr True \<and>
   calls (snd (emit (on ''expired'' (3, counting) (on ''expired'' (2, throwing)
               (on ''expired'' (1, counting) newEmitter)))
          ''expired'' ''order1'' \<lparr>world = 0, console = [], calls = []\<rparr>))
     = [(1, ''order1''), (2, ''order1''), (3, ''order1'')] \<and>
   world (snd (emit (on ''expired'' (3, counting) (on ''expired'' (2, throwing)
               (on ''expired'' (1, counting) newEmitter)))
          ''expired'' ''order1'' \<lparr>world = 0, console = [], calls = []\<rparr>)) = 3"
proof -
  let ?em = "on ''expired'' (3, counting) (on ''expired'' (2, throwing)
               (on ''expired'' (1, counting) newEmitter))"
  let ?s = "\<lparr>world = 0::nat, console = [], calls = [] :: (nat \<times> string) list\<rparr>"
  have ev: "events ?em ''expired'' = Some [(1, counting), (2, throwing), (3, counting)]"
    by (simp add: on_def newEmitter_def Let_def)
  from emit_isolates_listeners [of ?em "''expired''" "''order1''" ?s,
         THEN conjunct2, rule_format, OF ev]
  show ?thesis by (simp add: counting_def throwing_def)
qed

section \<open>Sequencing and the logger\<close>

text \<open>
  Statements in sequence, for the computations \<open>js\<close> of the section before: \<open>returns\<close> is a
  normal completion, \<open>throws\<close> a \<open>throw\<close>, \<open>andThen m f\<close> runs \<open>m\<close> and then, unless \<open>m\<close> threw,
  \<open>f\<close> on its value; \<open>effect\<close> is an assignment to the state and \<open>result\<close> a call that
  touches no state.
\<close>

definition returns :: "'r \<Rightarrow> ('s, 'r) js" where
  "returns r s = (Inr r, s)"

definition throws :: "error \<Rightarrow> ('s, 'r) js" where
  "throws e s = (Inl e, s)"

definition andThen :: "('s, 'a) js \<Rightarrow> ('a \<Rightarrow> ('s, 'b) js) \<Rightarrow> ('s, 'b) js" where
  "andThen m f s =
     (case m s of
        (Inl e, s') \<Rightarrow> (Inl e, s')
      | (Inr a, s') \<Rightarrow> f a s')"

definition effect :: "('s \<Rightarrow> 's) \<Rightarrow> ('s, unit) js" where
  "effect f s = (Inr (), f s)"

definition result :: "error + 'r \<Rightarrow> ('s, 'r) js" where
  "result r s = (r, s)"

text \<open>
  The module \<open>utils/logger\<close> exports one name, the class \<open>Logger\<close>, whose static methods
  \<open>debug\<close>, \<open>info\<close>, \<open>error\<close> and \<open>warn\<close> write to the console. \<open>WormholeBridge.ts\<close> and
  \<open>FusionAuctionTracker.ts\<close> import the namespace of the module,
  \<open>import * as logger from '../utils/logger'\<close>, and call \<open>logger.info(...)\<close>,
  \<open>logger.warn(...)\<close> and \<open>logger.error(...)\<close> on it. The namespace has no member of these
  names: the callee is \<open>undefined\<close>, and the call throws a \<open>TypeError\<close> before anything
  is printed. \<open>logger member\<close> is the call \<open>logger.member(...)\<close>, whatever its arguments;
  the text of the error is the run-time's.
\<close>

definition loggerExports :: "string list" where
  "loggerExports = [''Logger'']"

definition logger :: "string \<Rightarrow> error + unit" where
  "logger member =
     (if member \<in> set loggerExports
      then Inl (TypeError ''Class constructor Logger cannot be invoked without new'')
      else Inl (TypeError (''logger.'' @ member @ '' is not a function'')))"

lemma logger_info [simp]: "logger ''info'' = Inl (TypeError ''logger.info is not a function'')"
  by (simp add: logger_def loggerExports_def)

lemma logger_warn [simp]: "logger ''warn'' = Inl (TypeError ''logger.warn is not a function'')"
  by (simp add: logger_def loggerExports_def)

lemma logger_error [simp]: "logger ''error'' = Inl (TypeError ''logger.error is not a function'')"
  by (simp add: logger_def loggerExports_def)

lemmas js_defs = returns_def throws_def andThen_def effect_def result_def tryCatch_def

section \<open>The guardian network client: \<open>getSignedVAA\<close>\<close>

definition GUARDIAN_RPC_HOSTS :: "string list" where
  "GUARDIAN_RPC_HOSTS =
     [''https://wormhole-v2-mainnet-api.certus.one'',
      ''https://wormhole.inotel.ro'',
      ''https://wormhole-v2-mainnet-api.mcf.rocks'',
      ''https://wormhole-v2-mainnet-api.chainlayer.network'',
      ''https://wormhole-v2-mainnet-api.staking.fund'']"

text \<open>
  The decimal digits of a non-negative integer, as a template literal prints it. This is
  what JavaScript prints for the integers a number holds exactly, those below \<open>2^53\<close>;
  chain identifiers and sequence numbers beyond that are outside this model.
\<close>

fun showNat :: "nat \<Rightarrow> string" where
  "showNat n =
     (if n < 10 then [char_of (48 + n)]
      else showNat (n div 10) @ [char_of (48 + n mod 10)])"

declare showNat.simps [simp del]

text \<open>\<open>`${host}/v1/signed_vaa/${emitterChain}/${emitterAddress}/${sequence}`\<close>\<close>

definition vaaUrl :: "nat \<Rightarrow> string \<Rightarrow> nat \<Rightarrow> string \<Rightarrow> string" where
  "vaaUrl chain addr sq host =
     host @ ''/v1/signed_vaa/'' @ showNat chain @ ''/'' @ addr @ ''/'' @ showNat sq"

text \<open>
  What one request comes to inside the \<open>try\<close> block. \<open>Rejected\<close>: \<open>fetch\<close> throws.
  \<open>Response ok body\<close>: \<open>fetch\<close> returns a response with that \<open>ok\<close> flag; \<open>body\<close> is the
  bytes \<open>Buffer.from(data.vaaBytes, 'base64')\<close> gives, or \<open>None\<close> when \<open>response.json()\<close>
  or \<open>Buffer.from\<close> throws (no JSON, no \<open>vaaBytes\<close> field).
\<close>

datatype fetch_outcome = Rejected | Response bool "byte list option"

text \<open>The requests and waits of a call, in the order they happen.\<close>

datatype io = Fetch string | Sleep nat

text \<open>
  The network: what the request to a URL comes to, in each round. The client reads it
  only through the requests it issues.
\<close>

type_synonym network = "nat \<Rightarrow> string \<Rightarrow> fetch_outcome"

text \<open>
  The inner loop \<open>for (const host of this.GUARDIAN_RPC_HOSTS)\<close>. On a response that is
  \<open>ok\<close> and has a body, the \<open>try\<close> block calls \<open>logger.info('VAA retrieved successfully')\<close>
  and then returns the bytes; what the logger call throws is caught by the \<open>catch\<close> of
  the same block, which \<open>continue\<close>s. A response that is not \<open>ok\<close> falls out of the \<open>if\<close>,
  and anything else thrown is caught in the same way: the next host is tried.
\<close>

fun tryHosts :: "(string \<Rightarrow> fetch_outcome) \<Rightarrow> (string \<Rightarrow> string) \<Rightarrow> string list
    \<Rightarrow> io list \<times> byte list option" where
  "tryHosts fetch url [] = ([], None)"
| "tryHosts fetch url (host # hosts) =
     (case fetch (url host) of
        Response True (Some vaaBytes) \<Rightarrow>
          (case logger ''info'' of
             Inr u \<Rightarrow> ([Fetch (url host)], Some vaaBytes)
           | Inl e \<Rightarrow> (let (t, r) = tryHosts fetch url hosts in (Fetch (url host) # t, r)))
      | _ \<Rightarrow> (let (t, r) = tryHosts fetch url hosts in (Fetch (url host) # t, r)))"

text \<open>
  The outer loop \<open>for (let attempt = 0; attempt < 30; attempt++)\<close>: a round over the hosts,
  then \<open>logger.info(`VAA not ready yet, ...`)\<close>, outside any \<open>try\<close>, then a wait of 5000 ms;
  after the thirtieth round the \<open>throw\<close>.
\<close>

function attemptLoop :: "network \<Rightarrow> (string \<Rightarrow> string) \<Rightarrow> nat \<Rightarrow> io list \<times> (error + byte list)" where
  "attemptLoop net url attempt =
     (if attempt < 30 then
        (case tryHosts (net attempt) url GUARDIAN_RPC_HOSTS of
           (t, Some vaaBytes) \<Rightarrow> (t, Inr vaaBytes)
         | (t, None) \<Rightarrow>
             (case logger ''info'' of
                Inl e \<Rightarrow> (t, Inl e)
              | Inr u \<Rightarrow>
                  (let (t', r) = attemptLoop net url (attempt + 1)
                   in (t @ [Sleep 5000] @ t', r))))
      else ([], Inl (Error ''Failed to retrieve signed VAA after 30 attempts'')))"
  by pat_completeness auto
termination
  by (relation "measure (\<lambda>(net, url, attempt). 30 - attempt)") auto

declare attemptLoop.simps [simp del]

text \<open>
  \<open>getSignedVAA\<close>: its first statement is \<open>logger.info(`Fetching signed VAA ...`)\<close>, before
  the loops and outside any \<open>try\<close>.
\<close>

definition getSignedVAA :: "network \<Rightarrow> nat \<Rightarrow> string \<Rightarrow> nat \<Rightarrow> io list \<times> (error + byte list)" where
  "getSignedVAA net chain addr sq =
     (case logger ''info'' of
        Inl e \<Rightarrow> ([], Inl e)
      | Inr u \<Rightarrow> attemptLoop net (vaaUrl chain addr sq) 0)"

subsection \<open>What the three logger calls do to the client\<close>

lemma tryHosts_caught:
  "tryHosts fetch url hosts = (map (\<lambda>host. Fetch (url host)) hosts, None)"
  by (induction hosts)
     (simp_all split: fetch_outcome.splits bool.splits option.splits)

lemma attemptLoop_throws:
  "attempt < 30 \<Longrightarrow>
   attemptLoop net url attempt =
     (map (\<lambda>host. Fetch (url host)) GUARDIAN_RPC_HOSTS,
      Inl (TypeError ''logger.info is not a function''))"
  by (subst attemptLoop.simps) (simp add: tryHosts_caught)

lemma getSignedVAA_throws:
  "getSignedVAA net chain addr sq = ([], Inl (TypeError ''logger.info is not a function''))"
  by (simp add: getSignedVAA_def)

text \<open>
  C4: \<open>getSignedVAA\<close> is to return the payload of the first successful endpoint response
  and to fail only after thirty rounds in which every endpoint failed. The code does
  neither. At the input below every guardian answers every request with an \<open>ok\<close> response
  carrying the payload \<open>01 02 03\<close>; the call throws the \<open>TypeError\<close> of its first statement,
  \<open>logger.info\<close>, and has sent no request. Were that statement passed, the first round
  would ask all five hosts, because the \<open>logger.info\<close> after a successful response throws
  inside the \<open>try\<close> and is caught as a failure of the host, and the round would end in the
  \<open>TypeError\<close> of the \<open>logger.info\<close> that follows it: no payload is returned on any path.
\<close>

theorem getSignedVAA_throws_before_request:
  "getSignedVAA (\<lambda>attempt url. Response True (Some [1, 2, 3])) 2 ''ab'' 7
     = ([], Inl (TypeError ''logger.info is not a function'')) \<and>
   attemptLoop (\<lambda>attempt url. Response True (Some [1, 2, 3])) (vaaUrl 2 ''ab'' 7) 0
     = (map (\<lambda>host. Fetch (vaaUrl 2 ''ab'' 7 host)) GUARDIAN_RPC_HOSTS,
        Inl (TypeError ''logger.info is not a function''))"
  by (simp add: getSignedVAA_throws attemptLoop_throws)

section \<open>The transfer orchestrator: \<open>WormholeBridgeService\<close>\<close>


definition CHAIN_IDS :: "string \<rightharpoonup> nat" where
  "CHAIN_IDS = map_of
     [(''ethereum'', 2), (''bsc'', 4), (''polygon'', 5), (''avalanche'', 6), (''oasis'', 7),
      (''algorand'', 8), (''aurora'', 9), (''fantom'', 10), (''karura'', 11),
      (''acala'', 12), (''klaytn'', 13), (''celo'', 14), (''near'', 15),
      (''moonbeam'', 16), (''neon'', 17), (''terra2'', 18), (''injective'', 19),
      (''osmosis'', 20), (''sui'', 21), (''aptos'', 22), (''arbitrum'', 23),
      (''optimism'', 24), (''gnosis'', 25), (''pythnet'', 26), (''xpla'', 28),
      (''base'', 30), (''sei'', 32), (''rootstock'', 33), (''scroll'', 34),
      (''mantle'', 35), (''blast'', 36), (''xlayer'', 37), (''linea'', 38),
      (''berachain'', 39), (''seievm'', 40), (''solana'', 1)]"

definition getChainName :: "nat \<Rightarrow> string" where
  "getChainName chainId =
     (case map_of [(1, ''ethereum''), (56, ''bsc''), (137, ''polygon''),
                   (42161, ''arbitrum''), (10, ''optimism''), (8453, ''base'')] chainId of
        Some name \<Rightarrow> name
      | None \<Rightarrow> ''ethereum'')"

text \<open>
  \<open>this.CHAIN_IDS[this.getChainName(chainId)]\<close>. \<open>getChainName\<close> only returns names of
  the table, so the lookup always finds a number (lemma \<open>CHAIN_IDS_getChainName\<close>).
\<close>

definition wormholeChainId :: "nat \<Rightarrow> nat" where
  "wormholeChainId chainId =
     (case CHAIN_IDS (getChainName chainId) of Some n \<Rightarrow> n | None \<Rightarrow> 0)"










text \<open>The key \<open>`${sourceChainId}-${sequence}`\<close>.\<close>

definition transferKey :: "nat \<Rightarrow> nat \<Rightarrow> string" where
  "transferKey sourceChainId sq = showNat sourceChainId @ ''-'' @ showNat sq"














lemma CHAIN_IDS_getChainName:
  "CHAIN_IDS (getChainName chainId) = Some (wormholeChainId chainId)"
  by (simp add: wormholeChainId_def getChainName_def CHAIN_IDS_def)





lemma transferKey_1_7 [simp]: "transferKey (Suc 0) 7 = ''1-7''"
  by code_simp

section \<open>Claims about the transfer orchestrator\<close>







section \<open>The auction tracker: \<open>FusionAuctionTracker\<close>\<close>

datatype AuctionState =
    PENDING | ANNOUNCED | IN_AUCTION | RESOLVER_SELECTED | ESCROW_DEPOSITED
  | SECRET_REVEALING | EXECUTING | COMPLETED | FAILED | EXPIRED | REFUNDING | REFUNDED

text \<open>The string of each member of the enum: the topic its events are published under.\<close>

fun stateName :: "AuctionState \<Rightarrow> string" where
  "stateName PENDING = ''pending''"
| "stateName ANNOUNCED = ''announced''"
| "stateName IN_AUCTION = ''in_auction''"
| "stateName RESOLVER_SELECTED = ''resolver_selected''"
| "stateName ESCROW_DEPOSITED = ''escrow_deposited''"
| "stateName SECRET_REVEALING = ''secret_revealing''"
| "stateName EXECUTING = ''executing''"
| "stateName COMPLETED = ''completed''"
| "stateName FAILED = ''failed''"
| "stateName EXPIRED = ''expired''"
| "stateName REFUNDING = ''refunding''"
| "stateName REFUNDED = ''refunded''"

record ResolverInfo =
  address :: string
  bidAmount :: string
  reputation :: nat
  estimatedTime :: nat
  depositTxHash :: "string option"

text \<open>
  Modelled from the spec: the record \<open>getOrderStatus\<close> returns,
  \<open>{status: string, resolver?: string, fills?: list}\<close>; its declaration is in
  \<open>FusionPlusClient\<close>, which is not among the sources. The fill records are opaque.
\<close>

record AuctionStatus =
  status :: string
  statusResolver :: "string option"
  fills :: "string list option"

record AuctionEvent =
  orderHash :: string
  eventState :: AuctionState
  eventTimestamp :: int
  eventData :: "(AuctionStatus \<times> ResolverInfo option) option"

text \<open>What is passed to \<open>emit\<close>: an auction event, or the \<open>{ orderHash }\<close> of a refund.\<close>

datatype payload = AuctionUpdate AuctionEvent | RefundNeeded string

record auction =
  state :: AuctionState
  resolver :: "ResolverInfo option"
  startTime :: int
  timeoutMs :: int
  pollInterval :: "nat option"

text \<open>
  The tracker: the registry \<open>activeAuctions\<close>; the intervals that \<open>setInterval\<close> has
  started and \<open>clearInterval\<close> has not cleared, each with the order its callback polls;
  the next timer handle; and two logs, of the calls to \<open>emit\<close> (topic and payload) and of
  the status queries sent (\<open>getOrderStatus\<close>), in the order they happen.
\<close>

record tracker =
  activeAuctions :: "string \<rightharpoonup> auction"
  timers :: "nat \<rightharpoonup> string"
  nextTimer :: nat
  emitted :: "(string \<times> payload) list"
  queries :: "string list"

text \<open>The fields as \<open>super()\<close> and the field initialisers leave them.\<close>

definition emptyTracker :: tracker where
  "emptyTracker =
     \<lparr>activeAuctions = Map.empty, timers = Map.empty, nextTimer = 0, emitted = [],
      queries = []\<rparr>"

text \<open>
  The constructor: \<open>super()\<close>, the field initialisers, the assignment of the client, and
  then \<open>logger.info('... Fusion Auction Tracker initialized')\<close>. What the constructor
  throws, \<open>new FusionAuctionTracker(...)\<close> throws: there is then no tracker.
\<close>

definition newTracker :: "error + tracker" where
  "newTracker =
     (case logger ''info'' of
        Inl e \<Rightarrow> Inl e
      | Inr u \<Rightarrow> Inr emptyTracker)"

text \<open>
  A call \<open>this.emit(topic, payload)\<close> of the tracker, recorded in the log. What the call
  does with the listeners is the event bus's part (section \<open>EventEmitter\<close>): it returns
  normally whatever they do.
\<close>

definition emitCall :: "string \<Rightarrow> payload \<Rightarrow> tracker \<Rightarrow> tracker" where
  "emitCall topic p s = s\<lparr>emitted := emitted s @ [(topic, p)]\<rparr>"

text \<open>
  \<open>emitAuctionEvent\<close>: the event is built, then \<open>logger.info(`... Auction event: ...`)\<close>,
  then the event is published as \<open>auction_update\<close> and under its state.
\<close>

definition emitAuctionEvent ::
  "string \<Rightarrow> AuctionState \<Rightarrow> int \<Rightarrow> (AuctionStatus \<times> ResolverInfo option) option
     \<Rightarrow> (tracker, unit) js" where
  "emitAuctionEvent h st now d =
     (let event = \<lparr>orderHash = h, eventState = st, eventTimestamp = now, eventData = d\<rparr>
      in andThen (result (logger ''info'')) (\<lambda>_.
         andThen (effect (emitCall ''auction_update'' (AuctionUpdate event))) (\<lambda>_.
         effect (emitCall (stateName st) (AuctionUpdate event)))))"

definition clearInterval :: "nat \<Rightarrow> tracker \<Rightarrow> tracker" where
  "clearInterval tid s = s\<lparr>timers := (timers s)(tid := None)\<rparr>"

text \<open>
  \<open>startPolling\<close>: \<open>setInterval\<close> starts a new interval and its handle is stored in the
  entry.
\<close>

definition startPolling :: "string \<Rightarrow> tracker \<Rightarrow> tracker" where
  "startPolling h s =
     (case activeAuctions s h of
        None \<Rightarrow> s
      | Some a \<Rightarrow>
          s\<lparr>timers := (timers s)(nextTimer s \<mapsto> h),
            nextTimer := nextTimer s + 1,
            activeAuctions := (activeAuctions s)(h \<mapsto> a\<lparr>pollInterval := Some (nextTimer s)\<rparr>)\<rparr>)"

text \<open>
  \<open>trackOrder\<close>; \<open>now\<close> and \<open>now'\<close> are the two readings of \<open>Date.now()\<close>, for
  \<open>startTime\<close> and for the event. The \<open>try\<close> block opens with
  \<open>logger.info('... Starting auction tracking:', ...)\<close>; the \<open>catch\<close> calls
  \<open>logger.error\<close> and then throws the error again.
\<close>

definition trackOrder :: "string \<Rightarrow> int \<Rightarrow> int \<Rightarrow> int \<Rightarrow> (tracker, unit) js" where
  "trackOrder h timeoutMinutes now now' =
     tryCatch
       (andThen (result (logger ''info'')) (\<lambda>_.
        andThen (effect (\<lambda>s. s\<lparr>activeAuctions := (activeAuctions s)
               (h \<mapsto> \<lparr>state = PENDING, resolver = None, startTime = now,
                       timeoutMs = timeoutMinutes * 60 * 1000, pollInterval = None\<rparr>)\<rparr>)) (\<lambda>_.
        andThen (emitAuctionEvent h ANNOUNCED now' None) (\<lambda>_.
        effect (startPolling h)))))
       (\<lambda>e. andThen (result (logger ''error'')) (\<lambda>_. throws e))"

text \<open>
  The \<open>switch\<close> of \<open>checkAuctionStatus\<close>: the state an external status maps to, given
  the current one (the \<open>default\<close> branch keeps it).
\<close>

definition hasFills :: "AuctionStatus \<Rightarrow> bool" where
  "hasFills st = (case fills st of None \<Rightarrow> False | Some fs \<Rightarrow> length fs > 0)"

definition mapStatus :: "AuctionStatus \<Rightarrow> AuctionState \<Rightarrow> AuctionState" where
  "mapStatus st current =
     (if status st = ''pending'' then ANNOUNCED
      else if status st = ''in_auction'' then IN_AUCTION
      else if status st = ''resolver_selected'' then RESOLVER_SELECTED
      else if status st = ''executing'' then
        (if hasFills st then ESCROW_DEPOSITED else EXECUTING)
      else if status st = ''completed'' then COMPLETED
      else if status st = ''failed'' then FAILED
      else if status st = ''expired'' then EXPIRED
      else current)"

text \<open>
  The assignment in the \<open>resolver_selected\<close> branch, made when \<open>status.resolver\<close> is
  truthy: present and not the empty string.
\<close>

definition noteResolver :: "AuctionStatus \<Rightarrow> auction \<Rightarrow> auction" where
  "noteResolver st a =
     (case statusResolver st of
        Some r \<Rightarrow>
          if status st = ''resolver_selected'' \<and> r \<noteq> []
          then a\<lparr>resolver := Some \<lparr>address = r, bidAmount = ''0'', reputation = 0,
                                   estimatedTime = 300, depositTxHash = None\<rparr>\<rparr>
          else a
      | None \<Rightarrow> a)"

text \<open>
  \<open>checkAuctionStatus\<close>. \<open>response\<close> is what \<open>getOrderStatus\<close> comes to. The query is sent
  before the registry is looked at. On a change the new state is assigned to the entry
  and then \<open>emitAuctionEvent\<close> is called. Whatever the \<open>try\<close> block throws is caught, and
  the \<open>catch\<close> calls \<open>logger.error\<close>.
\<close>

definition checkAuctionStatus ::
  "string \<Rightarrow> error + AuctionStatus \<Rightarrow> int \<Rightarrow> (tracker, unit) js" where
  "checkAuctionStatus h response now =
     tryCatch
       (andThen (effect (\<lambda>s. s\<lparr>queries := queries s @ [h]\<rparr>)) (\<lambda>_.
        andThen (result response) (\<lambda>st s.
          (case activeAuctions s h of
             None \<Rightarrow> returns () s
           | Some a \<Rightarrow>
               (let a1 = noteResolver st a;
                    newState = mapStatus st (state a)
                in if newState \<noteq> state a
                   then andThen
                          (effect (\<lambda>s. s\<lparr>activeAuctions :=
                                     (activeAuctions s)(h \<mapsto> a1\<lparr>state := newState\<rparr>)\<rparr>))
                          (\<lambda>_. emitAuctionEvent h newState now (Some (st, resolver a1))) s
                   else effect (\<lambda>s. s\<lparr>activeAuctions := (activeAuctions s)(h \<mapsto> a1)\<rparr>) s)))))
       (\<lambda>e. result (logger ''error''))"

text \<open>
  \<open>handleTimeout\<close>: the state is assigned, then \<open>emitAuctionEvent\<close> is called, then
  \<open>refund_needed\<close> is published. There is no \<open>try\<close> here.
\<close>

definition handleTimeout :: "string \<Rightarrow> int \<Rightarrow> (tracker, unit) js" where
  "handleTimeout h now s =
     (case activeAuctions s h of
        None \<Rightarrow> returns () s
      | Some a \<Rightarrow>
          andThen (effect (\<lambda>s. s\<lparr>activeAuctions :=
                              (activeAuctions s)(h \<mapsto> a\<lparr>state := EXPIRED\<rparr>)\<rparr>)) (\<lambda>_.
          andThen (emitAuctionEvent h EXPIRED now None) (\<lambda>_.
          effect (emitCall ''refund_needed'' (RefundNeeded h)))) s)"

definition terminal :: "AuctionState \<Rightarrow> bool" where
  "terminal st \<longleftrightarrow> st \<in> {COMPLETED, FAILED, EXPIRED, REFUNDED}"

text \<open>
  The callback of the interval \<open>tid\<close> that polls order \<open>h\<close>, run as one step: the model
  does not interleave two runs of the callback, which in the code can overlap when the
  status query takes longer than the five seconds between them. \<open>tEv\<close>, \<open>tChk\<close> and
  \<open>tExp\<close> are the readings of \<open>Date.now()\<close> for the event of the poll, for the timeout
  check, and for the event of the timeout. The terminal branch clears the interval,
  deletes the entry and calls \<open>logger.info\<close>; it does not return, the timeout check
  follows it. The timeout branch calls \<open>logger.warn\<close>, then \<open>handleTimeout\<close>, then
  \<open>clearInterval\<close>. Whatever the \<open>try\<close> block throws is caught, and the \<open>catch\<close> calls
  \<open>logger.error\<close>; what that throws rejects the promise of the callback and is seen by
  nobody, the interval stays as it is.
\<close>

definition pollTick ::
  "nat \<Rightarrow> string \<Rightarrow> error + AuctionStatus \<Rightarrow> int \<Rightarrow> int \<Rightarrow> int \<Rightarrow> (tracker, unit) js" where
  "pollTick tid h response tEv tChk tExp =
     tryCatch
       (andThen (checkAuctionStatus h response tEv) (\<lambda>_ s1.
          (case activeAuctions s1 h of
             None \<Rightarrow> effect (clearInterval tid) s1
           | Some currentAuction \<Rightarrow>
               andThen
                 (if terminal (state currentAuction)
                  then andThen (effect (clearInterval tid)) (\<lambda>_.
                       andThen (effect (\<lambda>s. s\<lparr>activeAuctions := (activeAuctions s)(h := None)\<rparr>)) (\<lambda>_.
                       result (logger ''info'')))
                  else returns ())
                 (\<lambda>_. if tChk - startTime currentAuction > timeoutMs currentAuction
                      then andThen (result (logger ''warn'')) (\<lambda>_.
                           andThen (handleTimeout h tExp) (\<lambda>_.
                           effect (clearInterval tid)))
                      else returns ()) s1)))
       (\<lambda>e. result (logger ''error''))"

text \<open>An interval fires only while it has not been cleared.\<close>

definition fire ::
  "nat \<Rightarrow> error + AuctionStatus \<Rightarrow> int \<Rightarrow> int \<Rightarrow> int \<Rightarrow> (tracker, unit) js" where
  "fire tid response tEv tChk tExp s =
     (case timers s tid of
        None \<Rightarrow> (Inr (), s)
      | Some h \<Rightarrow> pollTick tid h response tEv tChk tExp s)"

text \<open>\<open>this.activeAuctions.get(orderHash)?.state || null\<close>\<close>

definition getAuctionState :: "string \<Rightarrow> tracker \<Rightarrow> AuctionState option" where
  "getAuctionState h s = map_option state (activeAuctions s h)"


text \<open>\<open>stopTracking\<close>: the interval is cleared, the entry deleted, then \<open>logger.info\<close>.\<close>

definition stopTracking :: "string \<Rightarrow> (tracker, unit) js" where
  "stopTracking h =
     andThen (effect (\<lambda>s. case activeAuctions s h of
                            None \<Rightarrow> s
                          | Some a \<Rightarrow> (case pollInterval a of
                                         None \<Rightarrow> s
                                       | Some tid \<Rightarrow> clearInterval tid s))) (\<lambda>_.
     andThen (effect (\<lambda>s. s\<lparr>activeAuctions := (activeAuctions s)(h := None)\<rparr>)) (\<lambda>_.
     result (logger ''info'')))"

text \<open>
  A run of successive polls of one order: what each poll comes to and the tracker it
  leaves. What is read off a tracker about an order: its state in the registry and the
  log of emit calls.
\<close>

fun polls :: "string \<Rightarrow> ((error + AuctionStatus) \<times> int) list \<Rightarrow> tracker
    \<Rightarrow> ((error + unit) \<times> tracker) list" where
  "polls h [] s = []"
| "polls h ((response, now) # rest) s =
     checkAuctionStatus h response now s
       # polls h rest (snd (checkAuctionStatus h response now s))"

definition observed ::
  "string \<Rightarrow> (error + unit) \<times> tracker
     \<Rightarrow> (error + unit) \<times> AuctionState option \<times> (string \<times> payload) list" where
  "observed h r = (fst r, getAuctionState h (snd r), emitted (snd r))"

text \<open>
  Inputs for the concrete runs below. Statuses; and tracker states given directly, since
  the constructor throws: \<open>registered\<close> has the fields as the assignments of
  \<open>trackOrder\<close> and \<open>startPolling\<close> would set them for \<open>order1\<close>, tracked at time 0 with
  the default timeout of 30 minutes and polled by interval 0; \<open>announced\<close> and
  \<open>completedOrder\<close> differ from it in the state of the entry.
\<close>

definition statusOf :: "string \<Rightarrow> AuctionStatus" where
  "statusOf str = \<lparr>status = str, statusResolver = None, fills = None\<rparr>"

definition executingWithFills :: AuctionStatus where
  "executingWithFills =
     \<lparr>status = ''executing'', statusResolver = Some ''0xresolver'', fills = Some [''fill'']\<rparr>"

definition orderIn :: "AuctionState \<Rightarrow> tracker" where
  "orderIn st =
     \<lparr>activeAuctions =
        [''order1'' \<mapsto> \<lparr>state = st, resolver = None, startTime = 0, timeoutMs = 1800000,
                         pollInterval = Some 0\<rparr>],
      timers = [0 \<mapsto> ''order1''], nextTimer = 1, emitted = [], queries = []\<rparr>"

definition registered :: tracker where
  "registered = orderIn PENDING"

definition announced :: tracker where
  "announced = orderIn ANNOUNCED"


subsection \<open>Steps of the tracker\<close>

lemma emitAuctionEvent_throws:
  "emitAuctionEvent h st now d s = (Inl (TypeError ''logger.info is not a function''), s)"
  by (simp add: emitAuctionEvent_def andThen_def result_def Let_def)

lemma newTracker_throws: "newTracker = Inl (TypeError ''logger.info is not a function'')"
  by (simp add: newTracker_def)

lemma trackOrder_throws:
  "trackOrder h timeoutMinutes now now' s
     = (Inl (TypeError ''logger.error is not a function''), s)"
  by (simp add: trackOrder_def tryCatch_def andThen_def result_def)

lemma state_noteResolver [simp]: "state (noteResolver st a) = state a"
  by (simp add: noteResolver_def split: option.splits)


lemma checkAuctionStatus_same:
  assumes "activeAuctions s h = Some a" "mapStatus st (state a) = state a"
  shows "checkAuctionStatus h (Inr st) now s =
     (Inr (), s\<lparr>queries := queries s @ [h],
                activeAuctions := (activeAuctions s)(h \<mapsto> noteResolver st a)\<rparr>)"
  using assms
  by (simp add: checkAuctionStatus_def js_defs Let_def)

lemma checkAuctionStatus_failed:
  "checkAuctionStatus h (Inl e) now s =
     (Inl (TypeError ''logger.error is not a function''), s\<lparr>queries := queries s @ [h]\<rparr>)"
  by (simp add: checkAuctionStatus_def js_defs)


lemma handleTimeout_None:
  "activeAuctions s h = None \<Longrightarrow> handleTimeout h now s = (Inr (), s)"
  by (simp add: handleTimeout_def returns_def)


lemma pollTick_timeout:
  assumes "activeAuctions s h = Some a" "\<not> terminal (state a)"
    "mapStatus st (state a) = state a" "tChk - startTime a > timeoutMs a"
  shows "pollTick tid h (Inr st) tEv tChk tExp s =
     (Inl (TypeError ''logger.error is not a function''),
      s\<lparr>queries := queries s @ [h],
        activeAuctions := (activeAuctions s)(h \<mapsto> noteResolver st a)\<rparr>)"
  using assms
  by (simp add: pollTick_def checkAuctionStatus_same js_defs noteResolver_def
        split: option.splits)



section \<open>Claims about the auction tracker\<close>

text \<open>
  C7: an order is registered and the statuses \<open>pending\<close>, \<open>in_auction\<close>,
  \<open>resolver_selected\<close>, \<open>executing\<close> without fills, \<open>executing\<close> with a fill and
  \<open>completed\<close> are fed; one state-change event is to be emitted per change. In the code
  no tracker can be constructed, \<open>trackOrder\<close> throws before it registers anything, and
  no event is ever emitted: \<open>emitAuctionEvent\<close> throws at its \<open>logger.info\<close> before either
  \<open>emit\<close>. On the tracker state \<open>registered\<close> the six polls assign the six states in the
  order the claim gives, each poll throws, and the log of emit calls stays empty.
\<close>

theorem auction_events_never_emitted:
  "newTracker = Inl (TypeError ''logger.info is not a function'') \<and>
   trackOrder ''order1'' 30 0 0 emptyTracker
     = (Inl (TypeError ''logger.error is not a function''), emptyTracker) \<and>
   map (observed ''order1'')
     (polls ''order1''
        [(Inr (statusOf ''pending''), 5000), (Inr (statusOf ''in_auction''), 10000),
         (Inr (statusOf ''resolver_selected''), 15000), (Inr (statusOf ''executing''), 20000),
         (Inr executingWithFills, 25000), (Inr (statusOf ''completed''), 30000)]
        registered)
     = [(Inl (TypeError ''logger.error is not a function''), Some ANNOUNCED, []),
        (Inl (TypeError ''logger.error is not a function''), Some IN_AUCTION, []),
        (Inl (TypeError ''logger.error is not a function''), Some RESOLVER_SELECTED, []),
        (Inl (TypeError ''logger.error is not a function''), Some EXECUTING, []),
        (Inl (TypeError ''logger.error is not a function''), Some ESCROW_DEPOSITED, []),
        (Inl (TypeError ''logger.error is not a function''), Some COMPLETED, [])]"
  by (simp add: newTracker_throws trackOrder_throws observed_def getAuctionState_def
        checkAuctionStatus_def js_defs emitAuctionEvent_throws Let_def
        registered_def orderIn_def statusOf_def executingWithFills_def
        mapStatus_def hasFills_def noteResolver_def)

text \<open>
  C8: once the time since \<open>startTime\<close> exceeds the timeout, the tracker is to force the
  state \<open>Expired\<close>, emit one \<open>refund_needed\<close> and never poll the order again. In the run
  below \<open>order1\<close> is in state \<open>announced\<close>, its status stays \<open>pending\<close>, and the interval
  fires one millisecond after the 30 minutes. The callback sends its query, reaches the
  timeout branch and throws at \<open>logger.warn\<close>, before \<open>handleTimeout\<close> and before
  \<open>clearInterval\<close>: the state is still \<open>announced\<close>, nothing is emitted, the interval
  is still live, and five seconds later it fires and polls again. \<open>handleTimeout\<close>
  itself, were it reached, would assign \<open>Expired\<close> and throw inside \<open>emitAuctionEvent\<close>,
  before \<open>refund_needed\<close> is published.
\<close>

theorem timeout_never_expires:
  "fire 0 (Inr (statusOf ''pending'')) 1800001 1800001 1800001 announced
     = (Inl (TypeError ''logger.error is not a function''),
        announced\<lparr>queries := [''order1'']\<rparr>) \<and>
   fire 0 (Inr (statusOf ''pending'')) 1805001 1805001 1805001
       (announced\<lparr>queries := [''order1'']\<rparr>)
     = (Inl (TypeError ''logger.error is not a function''),
        announced\<lparr>queries := [''order1'', ''order1'']\<rparr>) \<and>
   getAuctionState ''order1'' (announced\<lparr>queries := [''order1'', ''order1'']\<rparr>) = Some ANNOUNCED \<and>
   emitted (announced\<lparr>queries := [''order1'', ''order1'']\<rparr>) = [] \<and>
   timers (announced\<lparr>queries := [''order1'', ''order1'']\<rparr>) 0 = Some ''order1'' \<and>
   fst (handleTimeout ''order1'' 1800001 announced)
     = Inl (TypeError ''logger.info is not a function'') \<and>
   emitted (snd (handleTimeout ''order1'' 1800001 announced)) = []"
  by (simp add: fire_def pollTick_def checkAuctionStatus_def handleTimeout_def js_defs
        emitAuctionEvent_throws Let_def announced_def orderIn_def statusOf_def
        mapStatus_def noteResolver_def terminal_def getAuctionState_def)



end
